theory Spec2Isabelle
  imports Main "HOL-Library.Word"
begin

section \<open>The request aggregate of libhttpserver: \<open>http_request.hpp\<close>\<close>

text \<open>
  A shallow embedding of class \<open>http_request\<close>. Member functions take the object and
  return the updated object. Strings are byte lists. Values of type \<open>size_t\<close> are
  natural numbers: the class only compares them and takes their minimum, it never
  computes with them. A raw pointer is the address it holds, 0 being the null pointer.
\<close>

subsection \<open>Data model\<close>

text \<open>The member \<open>method\<close> of the class is the field \<open>http_method\<close> of the record.\<close>

type_synonym size_t = nat
type_synonym c_int = "32 word"
type_synonym pointer = nat

definition SIZE_MAX :: size_t where
  "SIZE_MAX = 2 ^ 64 - 1"

text \<open>
  \<open>std::map<std::string, std::string, Compare>\<close>: a list of entries holding at most one
  key of each equivalence class of the comparator. The order of iteration of the member
  maps is not modelled.
\<close>

type_synonym string_map = "(string \<times> string) list"

record http_request =
  user :: string
  pass :: string
  path :: string
  digested_user :: string
  http_method :: string
  post_path :: "string list"
  headers :: string_map
  footers :: string_map
  cookies :: string_map
  args :: string_map
  querystring :: string
  content :: string
  content_size_limit :: size_t
  version :: string
  requestor :: string
  requestor_port :: "16 word"
  underlying_connection :: pointer
  headers_loaded :: bool
  footers_loaded :: bool
  cookies_loaded :: bool
  args_loaded :: bool
  basic_auth_loaded :: bool
  digest_auth_loaded :: bool
  requestor_loaded :: bool
  unescaper :: pointer

text \<open>\<open>http_request::EMPTY\<close>, the empty-string sentinel.\<close>

definition EMPTY :: string where
  "EMPTY = []"

subsection \<open>Body accumulator\<close>

text \<open>\<open>content.substr(0, content_size_limit)\<close>: position 0 is never out of range.\<close>

definition set_content :: "http_request \<Rightarrow> string \<Rightarrow> http_request" where
  "set_content r c = r\<lparr>content := take (content_size_limit r) c\<rparr>"

definition set_content_size_limit :: "http_request \<Rightarrow> size_t \<Rightarrow> http_request" where
  "set_content_size_limit r n = r\<lparr>content_size_limit := n\<rparr>"

text \<open>
  \<open>grow_content(const char* content, size_t size)\<close>: the buffer is the list \<open>buf\<close>, of
  which the first \<open>sz\<close> bytes are appended (\<open>sz\<close> is the parameter \<open>size\<close>); the
  caller passes a buffer of at least \<open>sz\<close> bytes. Then \<open>resize\<close> cuts the string when it
  is longer than the limit.
\<close>

definition grow_content :: "http_request \<Rightarrow> string \<Rightarrow> size_t \<Rightarrow> http_request" where
  "grow_content r buf sz =
     (let appended = content r @ take sz buf
      in r\<lparr>content := (if length appended > content_size_limit r
                         then take (content_size_limit r) appended
                         else appended)\<rparr>)"

definition content_too_large :: "http_request \<Rightarrow> bool" where
  "content_too_large r = (length (content r) \<ge> content_size_limit r)"

definition get_content :: "http_request \<Rightarrow> string" where
  "get_content r = content r"

subsection \<open>Plain getters\<close>

definition get_path :: "http_request \<Rightarrow> string" where
  "get_path r = path r"

definition get_path_pieces :: "http_request \<Rightarrow> string list" where
  "get_path_pieces r = post_path r"

definition get_method :: "http_request \<Rightarrow> string" where
  "get_method r = http_method r"

definition get_version :: "http_request \<Rightarrow> string" where
  "get_version r = version r"

subsection \<open>Path pieces\<close>

text \<open>
  \<open>get_path_piece(int index)\<close> compares \<open>(int) post_path.size()\<close> with \<open>index\<close> and then
  evaluates \<open>post_path[index]\<close>, where the \<open>int\<close> is converted to \<open>size_t\<close>. An index
  outside the vector is undefined behaviour of \<open>operator[]\<close>: the error \<open>OutOfBounds\<close>.
\<close>

datatype error = OutOfBounds

definition int_of_size :: "size_t \<Rightarrow> int" where
  "int_of_size n = sint (word_of_nat n :: c_int)"

definition size_of_int :: "c_int \<Rightarrow> size_t" where
  "size_of_int i = nat (sint i mod 2 ^ 64)"

definition vector_at :: "string list \<Rightarrow> size_t \<Rightarrow> error + string" where
  "vector_at v i = (if i < length v then Inr (v ! i) else Inl OutOfBounds)"

definition get_path_piece :: "http_request \<Rightarrow> c_int \<Rightarrow> error + string" where
  "get_path_piece r index =
     (if int_of_size (length (post_path r)) > sint index
      then vector_at (post_path r) (size_of_int index)
      else Inr EMPTY)"

subsection \<open>Construction, copy and move\<close>

text \<open>
  A constructor writes into raw storage: \<open>raw\<close> is the object as the storage happens to
  hold it. A scalar member that the initializer list leaves out keeps the indeterminate
  value of \<open>raw\<close>; a string, vector or map member that is left out would be empty (there
  is none).
\<close>

definition default_http_request :: "http_request \<Rightarrow> http_request" where
  "default_http_request raw =
     raw\<lparr>user := [], pass := [], path := [], digested_user := [], http_method := [],
         post_path := [], headers := [], footers := [], cookies := [], args := [],
         querystring := [], content := [], content_size_limit := SIZE_MAX,
         version := [], requestor := [],
         underlying_connection := 0,
         headers_loaded := False, footers_loaded := False, cookies_loaded := False,
         args_loaded := False, basic_auth_loaded := False, digest_auth_loaded := False,
         requestor_loaded := False, unescaper := 0\<rparr>"

definition new_http_request :: "http_request \<Rightarrow> pointer \<Rightarrow> pointer \<Rightarrow> http_request" where
  "new_http_request raw conn unesc =
     raw\<lparr>user := [], pass := [], path := [], digested_user := [], http_method := [],
         post_path := [], headers := [], footers := [], cookies := [], args := [],
         querystring := [], content := [], content_size_limit := SIZE_MAX,
         version := [], requestor := [],
         underlying_connection := conn,
         headers_loaded := False, footers_loaded := False, cookies_loaded := False,
         args_loaded := False, basic_auth_loaded := False, digest_auth_loaded := False,
         requestor_loaded := False, unescaper := unesc\<rparr>"

text \<open>The copy constructor \<open>http_request(const http_request& b)\<close>.\<close>

definition copy_construct :: "http_request \<Rightarrow> http_request \<Rightarrow> http_request" where
  "copy_construct raw b =
     raw\<lparr>user := user b, pass := pass b, path := path b,
         digested_user := digested_user b, http_method := http_method b,
         post_path := post_path b, headers := headers b, footers := footers b,
         cookies := cookies b, args := args b, querystring := querystring b,
         content := content b, content_size_limit := content_size_limit b,
         version := version b, requestor := requestor b,
         underlying_connection := underlying_connection b,
         headers_loaded := headers_loaded b, footers_loaded := footers_loaded b,
         cookies_loaded := cookies_loaded b, args_loaded := args_loaded b,
         basic_auth_loaded := basic_auth_loaded b,
         digest_auth_loaded := digest_auth_loaded b,
         requestor_loaded := requestor_loaded b, unescaper := unescaper b\<rparr>"

text \<open>
  The move constructor \<open>http_request(http_request&& b)\<close>, seen from the new object: it
  receives the value each moved member had. Its initializer list ends at
  \<open>underlying_connection\<close>.
\<close>

definition move_construct :: "http_request \<Rightarrow> http_request \<Rightarrow> http_request" where
  "move_construct raw b =
     raw\<lparr>user := user b, pass := pass b, path := path b,
         digested_user := digested_user b, http_method := http_method b,
         post_path := post_path b, headers := headers b, footers := footers b,
         cookies := cookies b, args := args b, querystring := querystring b,
         content := content b, content_size_limit := content_size_limit b,
         version := version b, requestor := requestor b,
         underlying_connection := underlying_connection b\<rparr>"

text \<open>
  \<open>operator=(const http_request& b)\<close> and \<open>operator=(http_request&& b)\<close> on the object
  \<open>this\<close>. Objects are values here, so the test \<open>this == &b\<close> for self-assignment has no
  counterpart: assigning a value to itself with the statements below changes nothing.
\<close>

definition copy_assign :: "http_request \<Rightarrow> http_request \<Rightarrow> http_request" where
  "copy_assign this b =
     this\<lparr>user := user b, pass := pass b, path := path b,
          digested_user := digested_user b, http_method := http_method b,
          post_path := post_path b, headers := headers b, footers := footers b,
          cookies := cookies b, args := args b, querystring := querystring b,
          content := content b, content_size_limit := content_size_limit b,
          version := version b, requestor := requestor b,
          underlying_connection := underlying_connection b\<rparr>"

definition move_assign :: "http_request \<Rightarrow> http_request \<Rightarrow> http_request" where
  "move_assign this b =
     this\<lparr>user := user b, pass := pass b, path := path b,
          digested_user := digested_user b, http_method := http_method b,
          post_path := post_path b, headers := headers b, footers := footers b,
          cookies := cookies b, args := args b, querystring := querystring b,
          content := content b, content_size_limit := content_size_limit b,
          version := version b, requestor := requestor b,
          underlying_connection := underlying_connection b\<rparr>"

subsection \<open>Maps with a comparator\<close>

text \<open>
  Two keys are the same key of a map when neither compares less than the other. Both
  comparators of the library compare a normal form of the keys, so a comparator is given
  by the function \<open>canon\<close> that computes the normal form. \<open>map_find\<close> is \<open>find\<close>,
  \<open>map_assign\<close> is \<open>m[k] = v\<close>: an entry with the same key keeps its key and takes the new
  value, otherwise a new entry is made.
\<close>

type_synonym comparator = "string \<Rightarrow> string"

fun map_find :: "comparator \<Rightarrow> string_map \<Rightarrow> string \<Rightarrow> (string \<times> string) option" where
  "map_find canon [] k = None"
| "map_find canon ((k', v') # m) k =
     (if canon k' = canon k then Some (k', v') else map_find canon m k)"

fun map_assign :: "comparator \<Rightarrow> string_map \<Rightarrow> string \<Rightarrow> string \<Rightarrow> string_map" where
  "map_assign canon [] k v = [(k, v)]"
| "map_assign canon ((k', v') # m) k v =
     (if canon k' = canon k then (k', v) # m else (k', v') # map_assign canon m k v)"

fun map_erase :: "comparator \<Rightarrow> string_map \<Rightarrow> string \<Rightarrow> string_map" where
  "map_erase canon [] k = []"
| "map_erase canon ((k', v') # m) k =
     (if canon k' = canon k then m else (k', v') # map_erase canon m k)"

text \<open>
  Modelled from the spec: the case folding behind \<open>http::header_comparator\<close>, which is
  only declared in this file. A lower-case ASCII letter becomes the upper-case one.
\<close>

definition toupper :: "char \<Rightarrow> char" where
  "toupper c =
     (let n = (of_char c :: nat) in if 97 \<le> n \<and> n \<le> 122 then char_of (n - 32) else c)"

text \<open>
  Modelled from the spec: \<open>http::header_comparator\<close> is only declared in this file. The
  spec has the keys of headers, footers and cookies compared case-insensitively.
\<close>

definition header_comparator :: comparator where
  "header_comparator k = map toupper k"

text \<open>
  Modelled from the spec: \<open>http::arg_comparator\<close> is only declared in this file. The spec
  has the keys of arguments compared case-sensitively.
\<close>

definition arg_comparator :: comparator where
  "arg_comparator k = k"

subsection \<open>Setters\<close>

definition set_header :: "http_request \<Rightarrow> string \<Rightarrow> string \<Rightarrow> http_request" where
  "set_header r key val = r\<lparr>headers := map_assign header_comparator (headers r) key val\<rparr>"

definition set_footer :: "http_request \<Rightarrow> string \<Rightarrow> string \<Rightarrow> http_request" where
  "set_footer r key val = r\<lparr>footers := map_assign header_comparator (footers r) key val\<rparr>"

definition set_cookie :: "http_request \<Rightarrow> string \<Rightarrow> string \<Rightarrow> http_request" where
  "set_cookie r key val = r\<lparr>cookies := map_assign header_comparator (cookies r) key val\<rparr>"

text \<open>\<open>set_arg(const std::string& key, const std::string& value)\<close>.\<close>

definition set_arg :: "http_request \<Rightarrow> string \<Rightarrow> string \<Rightarrow> http_request" where
  "set_arg r key val =
     r\<lparr>args := map_assign arg_comparator (args r) key (take (content_size_limit r) val)\<rparr>"

text \<open>
  \<open>set_arg(const char* key, const char* value, size_t size)\<close>: the string built from the
  buffer \<open>val\<close> has its first \<open>min(size, content_size_limit)\<close> bytes; the caller passes a
  buffer of at least \<open>sz\<close> bytes.
\<close>

definition set_arg_sized :: "http_request \<Rightarrow> string \<Rightarrow> string \<Rightarrow> size_t \<Rightarrow> http_request" where
  "set_arg_sized r key val sz =
     r\<lparr>args := map_assign arg_comparator (args r) key
                 (take (min sz (content_size_limit r)) val)\<rparr>"

definition remove_header :: "http_request \<Rightarrow> string \<Rightarrow> http_request" where
  "remove_header r key = r\<lparr>headers := map_erase header_comparator (headers r) key\<rparr>"

text \<open>
  The bulk setters walk their argument, a \<open>std::map<std::string, std::string>\<close> with the
  default order, from \<open>begin()\<close> to \<open>end()\<close>: the argument is the list of its entries in
  that order, and its keys are distinct strings.
\<close>

definition set_headers :: "http_request \<Rightarrow> (string \<times> string) list \<Rightarrow> http_request" where
  "set_headers r hs =
     r\<lparr>headers := fold (\<lambda>it m. map_assign header_comparator m (fst it) (snd it)) hs (headers r)\<rparr>"

definition set_footers :: "http_request \<Rightarrow> (string \<times> string) list \<Rightarrow> http_request" where
  "set_footers r fs =
     r\<lparr>footers := fold (\<lambda>it m. map_assign header_comparator m (fst it) (snd it)) fs (footers r)\<rparr>"

definition set_cookies :: "http_request \<Rightarrow> (string \<times> string) list \<Rightarrow> http_request" where
  "set_cookies r cs =
     r\<lparr>cookies := fold (\<lambda>it m. map_assign header_comparator m (fst it) (snd it)) cs (cookies r)\<rparr>"

definition set_args :: "http_request \<Rightarrow> (string \<times> string) list \<Rightarrow> http_request" where
  "set_args r as =
     r\<lparr>args := fold (\<lambda>it m. map_assign arg_comparator m (fst it)
                               (take (content_size_limit r) (snd it))) as (args r)\<rparr>"

definition set_version :: "http_request \<Rightarrow> string \<Rightarrow> http_request" where
  "set_version r v = r\<lparr>version := v\<rparr>"

definition set_requestor :: "http_request \<Rightarrow> string \<Rightarrow> http_request" where
  "set_requestor r a = r\<lparr>requestor := a\<rparr>"

definition set_requestor_port :: "http_request \<Rightarrow> 16 word \<Rightarrow> http_request" where
  "set_requestor_port r p = r\<lparr>requestor_port := p\<rparr>"

definition set_user :: "http_request \<Rightarrow> string \<Rightarrow> http_request" where
  "set_user r u = r\<lparr>user := u\<rparr>"

definition set_digested_user :: "http_request \<Rightarrow> string \<Rightarrow> http_request" where
  "set_digested_user r u = r\<lparr>digested_user := u\<rparr>"

definition set_pass :: "http_request \<Rightarrow> string \<Rightarrow> http_request" where
  "set_pass r p = r\<lparr>pass := p\<rparr>"

subsection \<open>Path tokenizer and \<open>set_path\<close>\<close>

text \<open>Put a byte in front of the first string of a list.\<close>

fun cons_head :: "char \<Rightarrow> string list \<Rightarrow> string list" where
  "cons_head c [] = [[c]]"
| "cons_head c (t # ts) = (c # t) # ts"

text \<open>
  Modelled from the spec: the splitting behind \<open>http::http_utils::tokenize_url\<close>, which
  is defined in no file at hand. Spec 4.2: the path is split on the separator; the
  pieces are the strings between the separators, in order, empty ones included.
\<close>

fun string_split :: "char \<Rightarrow> string \<Rightarrow> string list" where
  "string_split sep [] = [[]]"
| "string_split sep (c # cs) =
     (if c = sep then [] # string_split sep cs else cons_head c (string_split sep cs))"

text \<open>
  Modelled from the spec: \<open>http::http_utils::tokenize_url\<close> is called by \<open>set_path\<close> and
  defined in no file at hand. Spec 4.2: the segments are obtained by splitting the raw
  path on \<open>/\<close> and discarding the empty segments.
\<close>

definition tokenize_url :: "string \<Rightarrow> string list" where
  "tokenize_url s = filter (\<lambda>t. t \<noteq> []) (string_split (CHR ''/'') s)"

text \<open>
  The loop of \<open>set_path\<close>: \<open>for (i = 0; i < complete_path.size(); i++) push_back(...)\<close>.
  The counter is a natural number; the \<open>unsigned int\<close> of the source counts any number
  of segments below \<open>2^32\<close>.
\<close>

function push_back_from :: "string list \<Rightarrow> nat \<Rightarrow> string list \<Rightarrow> string list" where
  "push_back_from complete_path i pp =
     (if i < length complete_path
      then push_back_from complete_path (Suc i) (pp @ [complete_path ! i])
      else pp)"
  by pat_completeness auto
termination
  by (relation "measure (\<lambda>(complete_path, i, pp). length complete_path - i)") auto

definition set_path :: "http_request \<Rightarrow> string \<Rightarrow> http_request" where
  "set_path r p =
     (let r1 = r\<lparr>path := p\<rparr>;
          complete_path = tokenize_url (path r1)
      in r1\<lparr>post_path := push_back_from complete_path 0 (post_path r1)\<rparr>)"

subsection \<open>The value a map holds for a key\<close>

definition map_value :: "comparator \<Rightarrow> string_map \<Rightarrow> string \<Rightarrow> string option" where
  "map_value canon m k = map_option snd (map_find canon m k)"

subsection \<open>Lazy maps\<close>

text \<open>
  Modelled from the spec: the Transport is outside this file. Spec 6: for a connection
  and a kind it enumerates key/value pairs to a visitor, and an injected function
  unescapes argument values; \<open>unescape\<close> is the function an unescaper pointer designates.
  A session is a request together with the log of the enumerations the Transport was
  asked for.
\<close>

datatype kind = HEADER_KIND | FOOTER_KIND | COOKIE_KIND | ARGUMENT_KIND

record transport =
  enumerate :: "pointer \<Rightarrow> kind \<Rightarrow> (string \<times> string) list"
  unescape :: "pointer \<Rightarrow> string \<Rightarrow> string"

record session =
  request :: http_request
  enumerations :: "kind list"

definition new_session :: "http_request \<Rightarrow> pointer \<Rightarrow> pointer \<Rightarrow> session" where
  "new_session raw conn unesc =
     \<lparr>request = new_http_request raw conn unesc, enumerations = []\<rparr>"

text \<open>
  Modelled from the spec: the visitor \<open>build_request_header\<close> is declared here and defined
  elsewhere. Spec 4.1: it inserts the pair it is called with.
\<close>

definition build_request_header :: "http_request \<Rightarrow> string \<Rightarrow> string \<Rightarrow> http_request" where
  "build_request_header r key val = set_header r key val"

text \<open>
  Modelled from the spec: the visitor \<open>build_request_footer\<close> is declared here and defined
  elsewhere. Spec 4.1: it inserts the pair it is called with.
\<close>

definition build_request_footer :: "http_request \<Rightarrow> string \<Rightarrow> string \<Rightarrow> http_request" where
  "build_request_footer r key val = set_footer r key val"

text \<open>
  Modelled from the spec: the visitor \<open>build_request_cookie\<close> is declared here and defined
  elsewhere. Spec 4.1: it inserts the pair it is called with.
\<close>

definition build_request_cookie :: "http_request \<Rightarrow> string \<Rightarrow> string \<Rightarrow> http_request" where
  "build_request_cookie r key val = set_cookie r key val"

text \<open>
  Modelled from the spec: the visitor \<open>build_request_args\<close> is declared here and defined
  elsewhere. Spec 4.1 and 6: it inserts the pair, the value unescaped by the injected
  function before it is stored.
\<close>

definition build_request_args :: "transport \<Rightarrow> http_request \<Rightarrow> string \<Rightarrow> string \<Rightarrow> http_request" where
  "build_request_args tr r key val = set_arg r key (unescape tr (unescaper r) val)"

text \<open>
  Modelled from the spec: \<open>check_or_fill_headers\<close> is declared here and defined elsewhere.
  Spec 4.1: the first call enumerates the pairs of the kind, sets the loaded flag and
  fills the map; later calls do nothing.
\<close>

definition check_or_fill_headers :: "transport \<Rightarrow> session \<Rightarrow> session" where
  "check_or_fill_headers tr s =
     (if headers_loaded (request s) then s
      else
        let r = request s;
            filled = fold (\<lambda>it r. build_request_header r (fst it) (snd it))
                       (enumerate tr (underlying_connection r) HEADER_KIND) r
        in s\<lparr>request := filled\<lparr>headers_loaded := True\<rparr>,
             enumerations := enumerations s @ [HEADER_KIND]\<rparr>)"

text \<open>
  Modelled from the spec: \<open>check_or_fill_footers\<close> is declared here and defined elsewhere.
  Spec 4.1: the first call enumerates the pairs of the kind, sets the loaded flag and
  fills the map; later calls do nothing.
\<close>

definition check_or_fill_footers :: "transport \<Rightarrow> session \<Rightarrow> session" where
  "check_or_fill_footers tr s =
     (if footers_loaded (request s) then s
      else
        let r = request s;
            filled = fold (\<lambda>it r. build_request_footer r (fst it) (snd it))
                       (enumerate tr (underlying_connection r) FOOTER_KIND) r
        in s\<lparr>request := filled\<lparr>footers_loaded := True\<rparr>,
             enumerations := enumerations s @ [FOOTER_KIND]\<rparr>)"

text \<open>
  Modelled from the spec: \<open>check_or_fill_cookies\<close> is declared here and defined elsewhere.
  Spec 4.1: the first call enumerates the pairs of the kind, sets the loaded flag and
  fills the map; later calls do nothing.
\<close>

definition check_or_fill_cookies :: "transport \<Rightarrow> session \<Rightarrow> session" where
  "check_or_fill_cookies tr s =
     (if cookies_loaded (request s) then s
      else
        let r = request s;
            filled = fold (\<lambda>it r. build_request_cookie r (fst it) (snd it))
                       (enumerate tr (underlying_connection r) COOKIE_KIND) r
        in s\<lparr>request := filled\<lparr>cookies_loaded := True\<rparr>,
             enumerations := enumerations s @ [COOKIE_KIND]\<rparr>)"

text \<open>
  Modelled from the spec: \<open>check_or_fill_args\<close> is declared here and defined elsewhere.
  Spec 4.1: the first call enumerates the pairs of the kind, sets the loaded flag and
  fills the map; later calls do nothing.
\<close>

definition check_or_fill_args :: "transport \<Rightarrow> session \<Rightarrow> session" where
  "check_or_fill_args tr s =
     (if args_loaded (request s) then s
      else
        let r = request s;
            filled = fold (\<lambda>it r. build_request_args tr r (fst it) (snd it))
                       (enumerate tr (underlying_connection r) ARGUMENT_KIND) r
        in s\<lparr>request := filled\<lparr>args_loaded := True\<rparr>,
             enumerations := enumerations s @ [ARGUMENT_KIND]\<rparr>)"

text \<open>
  Modelled from the spec: \<open>get_headers\<close> is declared here and defined elsewhere. Spec 4.1:
  it returns the fully populated map, loading it first when it is not loaded.
\<close>

definition get_headers :: "transport \<Rightarrow> session \<Rightarrow> string_map \<times> session" where
  "get_headers tr s = (let s' = check_or_fill_headers tr s in (headers (request s'), s'))"

text \<open>
  Modelled from the spec: \<open>get_header\<close> is declared here and defined elsewhere. Spec 4.1:
  it returns the mapped value, or the empty-string sentinel when the key is absent.
\<close>

definition get_header :: "transport \<Rightarrow> session \<Rightarrow> string \<Rightarrow> string \<times> session" where
  "get_header tr s key =
     (let s' = check_or_fill_headers tr s
      in (case map_find header_comparator (headers (request s')) key of
            Some it \<Rightarrow> snd it
          | None \<Rightarrow> EMPTY, s'))"

text \<open>
  Modelled from the spec: \<open>get_footers\<close> is declared here and defined elsewhere. Spec 4.1:
  it returns the fully populated map, loading it first when it is not loaded.
\<close>

definition get_footers :: "transport \<Rightarrow> session \<Rightarrow> string_map \<times> session" where
  "get_footers tr s = (let s' = check_or_fill_footers tr s in (footers (request s'), s'))"

text \<open>
  Modelled from the spec: \<open>get_footer\<close> is declared here and defined elsewhere. Spec 4.1:
  it returns the mapped value, or the empty-string sentinel when the key is absent.
\<close>

definition get_footer :: "transport \<Rightarrow> session \<Rightarrow> string \<Rightarrow> string \<times> session" where
  "get_footer tr s key =
     (let s' = check_or_fill_footers tr s
      in (case map_find header_comparator (footers (request s')) key of
            Some it \<Rightarrow> snd it
          | None \<Rightarrow> EMPTY, s'))"

text \<open>
  Modelled from the spec: \<open>get_cookies\<close> is declared here and defined elsewhere. Spec 4.1:
  it returns the fully populated map, loading it first when it is not loaded.
\<close>

definition get_cookies :: "transport \<Rightarrow> session \<Rightarrow> string_map \<times> session" where
  "get_cookies tr s = (let s' = check_or_fill_cookies tr s in (cookies (request s'), s'))"

text \<open>
  Modelled from the spec: \<open>get_cookie\<close> is declared here and defined elsewhere. Spec 4.1:
  it returns the mapped value, or the empty-string sentinel when the key is absent.
\<close>

definition get_cookie :: "transport \<Rightarrow> session \<Rightarrow> string \<Rightarrow> string \<times> session" where
  "get_cookie tr s key =
     (let s' = check_or_fill_cookies tr s
      in (case map_find header_comparator (cookies (request s')) key of
            Some it \<Rightarrow> snd it
          | None \<Rightarrow> EMPTY, s'))"

text \<open>
  Modelled from the spec: \<open>get_args\<close> is declared here and defined elsewhere. Spec 4.1:
  it returns the fully populated map, loading it first when it is not loaded.
\<close>

definition get_args :: "transport \<Rightarrow> session \<Rightarrow> string_map \<times> session" where
  "get_args tr s = (let s' = check_or_fill_args tr s in (args (request s'), s'))"

text \<open>
  Modelled from the spec: \<open>get_arg\<close> is declared here and defined elsewhere. Spec 4.1:
  it returns the mapped value, or the empty-string sentinel when the key is absent.
\<close>

definition get_arg :: "transport \<Rightarrow> session \<Rightarrow> string \<Rightarrow> string \<times> session" where
  "get_arg tr s key =
     (let s' = check_or_fill_args tr s
      in (case map_find arg_comparator (args (request s')) key of
            Some it \<Rightarrow> snd it
          | None \<Rightarrow> EMPTY, s'))"

text \<open>The eight lazy getters as one call, for runs of calls on one instance.\<close>

datatype getter =
    Get_headers | Get_footers | Get_cookies | Get_args
  | Get_header string | Get_footer string | Get_cookie string | Get_arg string

datatype got = Map string_map | Str string

fun kind_of :: "getter \<Rightarrow> kind" where
  "kind_of Get_headers = HEADER_KIND"
| "kind_of Get_footers = FOOTER_KIND"
| "kind_of Get_cookies = COOKIE_KIND"
| "kind_of Get_args = ARGUMENT_KIND"
| "kind_of (Get_header key) = HEADER_KIND"
| "kind_of (Get_footer key) = FOOTER_KIND"
| "kind_of (Get_cookie key) = COOKIE_KIND"
| "kind_of (Get_arg key) = ARGUMENT_KIND"

fun loaded :: "kind \<Rightarrow> http_request \<Rightarrow> bool" where
  "loaded HEADER_KIND r = headers_loaded r"
| "loaded FOOTER_KIND r = footers_loaded r"
| "loaded COOKIE_KIND r = cookies_loaded r"
| "loaded ARGUMENT_KIND r = args_loaded r"

fun call :: "transport \<Rightarrow> getter \<Rightarrow> session \<Rightarrow> got \<times> session" where
  "call tr Get_headers s = map_prod Map id (get_headers tr s)"
| "call tr Get_footers s = map_prod Map id (get_footers tr s)"
| "call tr Get_cookies s = map_prod Map id (get_cookies tr s)"
| "call tr Get_args s = map_prod Map id (get_args tr s)"
| "call tr (Get_header key) s = map_prod Str id (get_header tr s key)"
| "call tr (Get_footer key) s = map_prod Str id (get_footer tr s key)"
| "call tr (Get_cookie key) s = map_prod Str id (get_cookie tr s key)"
| "call tr (Get_arg key) s = map_prod Str id (get_arg tr s key)"

fun run :: "transport \<Rightarrow> getter list \<Rightarrow> session \<Rightarrow> session" where
  "run tr [] s = s"
| "run tr (g # gs) s = run tr gs (snd (call tr g s))"

subsection \<open>Digest authentication\<close>












subsection \<open>Concrete objects\<close>

text \<open>Storage that holds zeros.\<close>

definition zeroed :: http_request where
  "zeroed =
     \<lparr>user = [], pass = [], path = [], digested_user = [], http_method = [], post_path = [],
      headers = [], footers = [], cookies = [], args = [], querystring = [], content = [],
      content_size_limit = 0, version = [], requestor = [], requestor_port = 0,
      underlying_connection = 0, headers_loaded = False, footers_loaded = False,
      cookies_loaded = False, args_loaded = False, basic_auth_loaded = False,
      digest_auth_loaded = False, requestor_loaded = False, unescaper = 0\<rparr>"

text \<open>
  A request whose headers have been loaded, \<open>Host: x\<close> being the only header, and
  whose requestor port has been set.
\<close>

definition loaded_request :: http_request where
  "loaded_request =
     (set_requestor_port (set_header (new_http_request zeroed 1 2) ''Host'' ''x'') 8080)
       \<lparr>headers_loaded := True\<rparr>"

text \<open>A Transport that enumerates the headers \<open>hs\<close> and nothing else, and unescapes nothing.\<close>

definition stub_transport :: "(string \<times> string) list \<Rightarrow> transport" where
  "stub_transport hs =
     \<lparr>enumerate = (\<lambda>conn kind. if kind = HEADER_KIND then hs else []),
      unescape = (\<lambda>p v. v)\<rparr>"



section \<open>Properties\<close>

declare push_back_from.simps [simp del]

subsection \<open>Body accumulator\<close>

lemma content_set_content: "content (set_content r c) = take (content_size_limit r) c"
  by (simp add: set_content_def)

lemma content_grow_content:
  "content (grow_content r buf sz) = take (content_size_limit r) (content r @ take sz buf)"
proof -
  define appended where "appended = content r @ take sz buf"
  have "(if length appended > content_size_limit r
         then take (content_size_limit r) appended else appended)
        = take (content_size_limit r) appended"
    by simp
  then show ?thesis
    unfolding appended_def by (simp add: grow_content_def Let_def del: take_append)
qed

lemma limit_grow_content: "content_size_limit (grow_content r buf sz) = content_size_limit r"
  by (simp add: grow_content_def Let_def)

lemma limit_set_content: "content_size_limit (set_content r c) = content_size_limit r"
  by (simp add: set_content_def)

text \<open>
  C3. After \<open>set_content\<close> and after \<open>grow_content\<close> the content is no longer than
  \<open>content_size_limit\<close>, whatever the object was before: \<open>set_content\<close> stores the
  argument cut to the limit, \<open>grow_content\<close> stores the old content followed by the
  \<open>sz\<close> appended bytes, cut to the limit. Both are total: the bytes beyond the limit are
  dropped and nothing fails.
\<close>

theorem content_within_limit:
  "length (content (set_content r c)) \<le> content_size_limit (set_content r c)
   \<and> length (content (grow_content r buf sz)) \<le> content_size_limit (grow_content r buf sz)
   \<and> content (set_content r c) = take (content_size_limit r) c
   \<and> content (grow_content r buf sz) = take (content_size_limit r) (content r @ take sz buf)"
  by (simp add: content_set_content content_grow_content limit_grow_content limit_set_content)

text \<open>
  C7. \<open>content_too_large\<close> is true exactly when the size of the content has reached or
  exceeded \<open>content_size_limit\<close>; after an append that is when the old size plus the
  appended bytes reach the limit. With a limit of 10 and an empty content, two appends
  of 6 bytes leave the first 10 of the 12 bytes, and \<open>content_too_large\<close> is true.
\<close>

theorem content_too_large_reached:
  "content_too_large r = (content_size_limit r \<le> length (content r))
   \<and> content_too_large (grow_content r buf sz)
       = (content_size_limit r \<le> length (content r) + min sz (length buf))
   \<and> (content r = [] \<and> content_size_limit r = 10 \<and> length b1 = 6 \<and> length b2 = 6 \<longrightarrow>
        content (grow_content (grow_content r b1 6) b2 6) = b1 @ take 4 b2
        \<and> length (content (grow_content (grow_content r b1 6) b2 6)) = 10
        \<and> content_too_large (grow_content (grow_content r b1 6) b2 6))"
proof -
  have "content_too_large (grow_content r buf sz)
        = (content_size_limit r \<le> length (content r) + min sz (length buf))"
    by (auto simp add: content_too_large_def content_grow_content limit_grow_content)
  then show ?thesis
    by (simp add: content_too_large_def content_grow_content limit_grow_content)
qed

theorem content_too_large_reached_witness:
  "content (grow_content (grow_content (set_content_size_limit (new_http_request zeroed 7 0) 10)
       ''abcdef'' 6) ''ghijkl'' 6) = ''abcdefghij''
   \<and> content_too_large (grow_content (grow_content
       (set_content_size_limit (new_http_request zeroed 7 0) 10) ''abcdef'' 6) ''ghijkl'' 6)
   \<and> \<not> content_too_large (grow_content
       (set_content_size_limit (new_http_request zeroed 7 0) 10) ''abcdef'' 6)"
  using content_too_large_reached
    [of "set_content_size_limit (new_http_request zeroed 7 0) 10" "''abcdef''" 6
        "''abcdef''" "''ghijkl''"]
    content_too_large_reached
    [of "grow_content (set_content_size_limit (new_http_request zeroed 7 0) 10) ''abcdef'' 6"]
  by (simp add: set_content_size_limit_def new_http_request_def zeroed_def
      content_grow_content limit_grow_content content_too_large_def)

subsection \<open>Path\<close>

lemma push_back_from_drop: "push_back_from cp i pp = pp @ drop i cp"
proof (induction cp i pp rule: push_back_from.induct)
  case (1 cp i pp)
  show ?case
  proof (cases "i < length cp")
    case True
    then have "push_back_from cp i pp = push_back_from cp (Suc i) (pp @ [cp ! i])"
      by (simp add: push_back_from.simps [of cp i pp])
    also have "\<dots> = (pp @ [cp ! i]) @ drop (Suc i) cp"
      using True by (rule "1.IH")
    also have "\<dots> = pp @ drop i cp"
      using True by (simp add: Cons_nth_drop_Suc)
    finally show ?thesis .
  next
    case False
    then show ?thesis by (simp add: push_back_from.simps [of cp i pp])
  qed
qed

lemma post_path_set_path: "post_path (set_path r p) = post_path r @ tokenize_url p"
  by (simp add: set_path_def Let_def push_back_from_drop)

lemma path_set_path: "path (set_path r p) = p"
  by (simp add: set_path_def Let_def)

lemma post_path_new: "post_path (new_http_request raw conn unesc) = []"
  by (simp add: new_http_request_def)

text \<open>
  C9. \<open>set_path\<close> replaces \<open>path\<close> and appends the segments of the new path to
  \<open>post_path\<close> without clearing it: after a second call \<open>post_path\<close> holds the segments
  it had, those of the first path and those of the second, in this order.
\<close>

theorem set_path_appends:
  "post_path (set_path r p) = post_path r @ tokenize_url p
   \<and> path (set_path r p) = p
   \<and> post_path (set_path (set_path r p1) p2) = post_path r @ tokenize_url p1 @ tokenize_url p2
   \<and> path (set_path (set_path r p1) p2) = p2"
  by (simp add: post_path_set_path path_set_path)

lemma cons_head_not_Nil: "cons_head c ts \<noteq> []"
  by (cases ts) auto

lemma string_split_not_Nil: "string_split sep s \<noteq> []"
  by (induction s) (auto simp: cons_head_not_Nil)

lemma cons_head_append: "ts \<noteq> [] \<Longrightarrow> cons_head c (ts @ us) = cons_head c ts @ us"
  by (cases ts) auto

lemma string_split_append:
  "string_split sep (a @ sep # b) = string_split sep a @ string_split sep b"
  by (induction a) (auto simp: cons_head_append string_split_not_Nil)

lemma string_split_no_sep: "sep \<notin> set s \<Longrightarrow> string_split sep s = [s]"
  by (induction s) auto

lemma concat_cons_head: "concat (cons_head c ts) = c # concat ts"
  by (cases ts) auto

lemma concat_string_split: "concat (string_split sep s) = filter (\<lambda>c. c \<noteq> sep) s"
  by (induction s) (auto simp: concat_cons_head)

lemma concat_filter_nonempty: "concat (filter (\<lambda>t. t \<noteq> []) ts) = concat ts"
  by (induction ts) auto

lemma tokenize_url_append:
  "tokenize_url (a @ CHR ''/'' # b) = tokenize_url a @ tokenize_url b"
  by (simp add: tokenize_url_def string_split_append)

lemma tokenize_url_segment:
  "CHR ''/'' \<notin> set s \<Longrightarrow> s \<noteq> [] \<Longrightarrow> tokenize_url s = [s]"
  by (simp add: tokenize_url_def string_split_no_sep)

lemma concat_tokenize_url: "concat (tokenize_url s) = filter (\<lambda>c. c \<noteq> CHR ''/'') s"
  by (simp add: tokenize_url_def concat_filter_nonempty concat_string_split)

lemma tokenize_url_example: "tokenize_url ''/a/b//c/'' = [''a'', ''b'', ''c'']"
  by (simp add: tokenize_url_def)

text \<open>
  C6. The tokenizer yields the segments between the slashes, in order, without the
  empty ones: \<open>/a/b//c/\<close> gives \<open>a\<close>, \<open>b\<close>, \<open>c\<close> and the empty path gives no segment; no
  segment is empty; the segments together are the path without its slashes; a slash
  separates the segments before it from those after it, and a non-empty string without
  a slash is one segment. On a new request \<open>set_path\<close> makes \<open>post_path\<close> these segments.
\<close>

theorem tokenize_url_segments:
  "tokenize_url ''/a/b//c/'' = [''a'', ''b'', ''c'']
   \<and> tokenize_url [] = []
   \<and> [] \<notin> set (tokenize_url s)
   \<and> concat (tokenize_url s) = filter (\<lambda>c. c \<noteq> CHR ''/'') s
   \<and> tokenize_url (a @ CHR ''/'' # b) = tokenize_url a @ tokenize_url b
   \<and> (CHR ''/'' \<notin> set t \<and> t \<noteq> [] \<longrightarrow> tokenize_url t = [t])
   \<and> post_path (set_path (new_http_request raw conn unesc) s) = tokenize_url s"
proof -
  have "tokenize_url [] = []" "[] \<notin> set (tokenize_url s)"
    by (simp_all add: tokenize_url_def)
  then show ?thesis
    using tokenize_url_example concat_tokenize_url [of s] tokenize_url_append [of a b]
      tokenize_url_segment [of t]
    by (simp add: post_path_set_path post_path_new)
qed

theorem tokenize_url_segments_witness:
  "tokenize_url ''index.html'' = [''index.html'']
   \<and> tokenize_url ''/api//v1/'' = tokenize_url ''/api/'' @ tokenize_url ''v1/''
   \<and> post_path (set_path (new_http_request zeroed 7 0) ''/api//v1/'') = [''api'', ''v1'']"
proof -
  have "CHR ''/'' \<notin> set ''index.html'' \<and> ''index.html'' \<noteq> []"
    by simp
  moreover have "tokenize_url ''/api//v1/'' = [''api'', ''v1'']"
    by (simp add: tokenize_url_def)
  ultimately show ?thesis
    using tokenize_url_segments [of "''/api//v1/''" "''/api/''" "''v1/''" "''index.html''" zeroed 7 0]
    by simp
qed

subsection \<open>Path pieces\<close>

lemma sint_le_uint: "sint (w :: c_int) \<le> uint w"
proof -
  have "- (2 ^ 31) \<le> uint w"
    by (rule order_trans [of _ 0]) simp_all
  then show ?thesis
    by (simp add: sint_uint signed_take_bit_int_less_eq_self_iff)
qed

lemma int_of_size_le: "int_of_size n \<le> int n"
proof -
  have "uint (word_of_nat n :: c_int) = int (n mod 2 ^ 32)"
    by (simp add: uint_nat unat_of_nat)
  also have "\<dots> \<le> int n"
    by simp
  finally show ?thesis
    unfolding int_of_size_def using sint_le_uint [of "word_of_nat n"] by linarith
qed

lemma int_of_size_small:
  assumes "n < 2 ^ 31"
  shows "int_of_size n = int n"
proof -
  have "int n < 2 ^ 31"
    using assms by (metis of_nat_less_iff of_nat_numeral of_nat_power)
  then have "signed_take_bit 31 (int n) = int n"
    by (simp add: signed_take_bit_int_eq_self)
  then show ?thesis
    by (simp add: int_of_size_def signed_of_nat)
qed

lemma get_path_piece_beyond:
  "int (length (post_path r)) \<le> sint index \<Longrightarrow> get_path_piece r index = Inr EMPTY"
  using int_of_size_le [of "length (post_path r)"]
  by (simp add: get_path_piece_def)

lemma get_path_piece_within:
  assumes "0 \<le> sint index" "sint index < int (length (post_path r))" "length (post_path r) < 2 ^ 31"
  shows "get_path_piece r index = Inr (post_path r ! nat (sint index))"
proof -
  have "sint index < 2 ^ 31"
    using sint_lt [of index] by simp
  then have "sint index mod 2 ^ 64 = sint index"
    using assms(1) by simp
  then show ?thesis
    using assms by (simp add: get_path_piece_def int_of_size_small size_of_int_def vector_at_def)
qed

lemma get_path_piece_negative:
  assumes "sint index < 0" "length (post_path r) < 2 ^ 31"
  shows "get_path_piece r index = Inl OutOfBounds"
proof -
  have lo: "- (2 ^ 31) \<le> sint index"
    using sint_ge [of index] by simp
  have "sint index mod 2 ^ 64 = (sint index + 2 ^ 64) mod 2 ^ 64"
    by simp
  also have "\<dots> = sint index + 2 ^ 64"
    using assms(1) lo by (intro mod_pos_pos_trivial) simp_all
  finally have "sint index mod 2 ^ 64 = sint index + 2 ^ 64" .
  then have "size_of_int index \<ge> 2 ^ 31"
    using lo by (simp add: size_of_int_def)
  then show ?thesis
    using assms by (simp add: get_path_piece_def int_of_size_small vector_at_def)
qed

text \<open>
  C5. An index at or beyond the size of \<open>post_path\<close> gives the sentinel \<open>EMPTY\<close>
  (\<open>get_path_piece_beyond\<close>), but a negative index does not: it passes the test
  \<open>(int) size > index\<close> and \<open>post_path[index]\<close> reads outside the vector
  (\<open>get_path_piece_negative\<close>). On the request with path \<open>/a\<close>, index \<open>-1\<close> is such a
  read, index 0 is the piece \<open>a\<close> and index 1 is \<open>EMPTY\<close>.
\<close>

theorem get_path_piece_negative_index:
  "post_path (set_path (new_http_request zeroed 7 0) ''/a'') = [''a'']
   \<and> get_path_piece (set_path (new_http_request zeroed 7 0) ''/a'') (- 1) = Inl OutOfBounds
   \<and> get_path_piece (set_path (new_http_request zeroed 7 0) ''/a'') 0 = Inr ''a''
   \<and> get_path_piece (set_path (new_http_request zeroed 7 0) ''/a'') 1 = Inr EMPTY"
proof -
  have pp: "post_path (set_path (new_http_request zeroed 7 0) ''/a'') = [''a'']"
    by (simp add: post_path_set_path post_path_new tokenize_url_def)
  then show ?thesis
    by (simp add: get_path_piece_def int_of_size_def size_of_int_def vector_at_def)
qed

subsection \<open>Copy, move and maps\<close>

lemma map_value_assign_same:
  "canon k' = canon k \<Longrightarrow> map_value canon (map_assign canon m k v) k' = Some v"
  by (induction m) (auto simp: map_value_def)

lemma map_find_assign_other:
  "canon k' \<noteq> canon k \<Longrightarrow> map_find canon (map_assign canon m k v) k' = map_find canon m k'"
  by (induction m) auto

lemma fold_assign_other:
  "canon k \<notin> canon ` fst ` set xs \<Longrightarrow>
   map_find canon (fold (\<lambda>it m. map_assign canon m (fst it) (f (snd it))) xs m) k
     = map_find canon m k"
  by (induction xs arbitrary: m) (auto simp: map_find_assign_other)

lemma fold_assign_value:
  "map_value canon (fold (\<lambda>it m. map_assign canon m (fst it) (f (snd it))) xs m) k =
     (case map_find canon (rev xs) k of
        Some e \<Rightarrow> Some (f (snd e))
      | None \<Rightarrow> map_value canon m k)"
proof (induction xs rule: rev_induct)
  case Nil
  show ?case by simp
next
  case (snoc x xs)
  show ?case
  proof (cases "canon (fst x) = canon k")
    case True
    then show ?thesis
      by (cases x) (simp add: map_value_assign_same)
  next
    case False
    then have "canon k \<noteq> canon (fst x)" by simp
    with snoc False show ?thesis
      by (cases x) (simp add: map_value_def map_find_assign_other)
  qed
qed

lemma find_rev_distinct:
  "distinct (map (canon \<circ> fst) xs) \<Longrightarrow> (k, v) \<in> set xs \<Longrightarrow>
   map_find canon (rev xs) k = Some (k, v)"
proof (induction xs rule: rev_induct)
  case Nil
  then show ?case by simp
next
  case (snoc x xs)
  then show ?case
    by (cases x) (auto simp: image_iff)
qed

lemma take_min_length: "take (min (length v) n) v = take n v"
  by (simp add: min_def)

text \<open>
  C8. After an argument is inserted under a key, the value the map holds for the key is
  the given value cut to \<open>content_size_limit\<close>, that is its first
  \<open>min(length, content_size_limit)\<close> bytes: for \<open>set_arg\<close> with two strings, for
  \<open>set_arg\<close> with a buffer and a size (the given value is the first \<open>sz\<close> bytes of the
  buffer), and for every entry of the argument of \<open>set_args\<close>, whose keys are distinct.
\<close>

theorem set_arg_truncates:
  "map_value arg_comparator (args (set_arg r key val)) key
     = Some (take (min (length val) (content_size_limit r)) val)
   \<and> map_value arg_comparator (args (set_arg_sized r key val sz)) key
     = Some (take (min (length (take sz val)) (content_size_limit r)) (take sz val))
   \<and> (distinct (map fst as) \<and> (key, val) \<in> set as \<longrightarrow>
        map_value arg_comparator (args (set_args r as)) key
          = Some (take (min (length val) (content_size_limit r)) val))"
proof -
  have one: "map_value arg_comparator (args (set_arg r key val)) key
     = Some (take (min (length val) (content_size_limit r)) val)"
    by (simp add: set_arg_def map_value_assign_same take_min_length)
  have "take (min (length (take sz val)) (content_size_limit r)) (take sz val)
      = take (content_size_limit r) (take sz val)"
    by (rule take_min_length)
  also have "\<dots> = take (min sz (content_size_limit r)) val"
    by (simp only: take_take min.commute)
  finally have "take (min sz (content_size_limit r)) val
      = take (min (length (take sz val)) (content_size_limit r)) (take sz val)"
    by (rule sym)
  then have two: "map_value arg_comparator (args (set_arg_sized r key val sz)) key
     = Some (take (min (length (take sz val)) (content_size_limit r)) (take sz val))"
    by (simp add: set_arg_sized_def map_value_assign_same)
  have three: "map_value arg_comparator (args (set_args r as)) key
          = Some (take (min (length val) (content_size_limit r)) val)"
    if "distinct (map fst as)" "(key, val) \<in> set as"
  proof -
    have "distinct (map (arg_comparator \<circ> fst) as)"
      using that(1) by (simp add: arg_comparator_def comp_def)
    then have "map_find arg_comparator (rev as) key = Some (key, val)"
      using that(2) by (rule find_rev_distinct)
    then show ?thesis
      by (simp add: set_args_def fold_assign_value take_min_length)
  qed
  from one two three show ?thesis by blast
qed

theorem set_arg_truncates_witness:
  "map_value arg_comparator
     (args (set_args (set_content_size_limit (new_http_request zeroed 7 0) 3)
        [(''a'', ''hello''), (''b'', ''hi'')])) ''a'' = Some ''hel''
   \<and> map_value arg_comparator
     (args (set_arg (set_content_size_limit (new_http_request zeroed 7 0) 3) ''a'' ''hello'')) ''a''
       = Some ''hel''
   \<and> map_value arg_comparator
     (args (set_arg_sized (set_content_size_limit (new_http_request zeroed 7 0) 3) ''a'' ''hello'' 2))
       ''a'' = Some ''he''"
proof -
  let ?r = "set_content_size_limit (new_http_request zeroed 7 0) 3"
  let ?as = "[(''a'', ''hello''), (''b'', ''hi'')]"
  note t = set_arg_truncates [of ?r "''a''" "''hello''" 2 ?as]
  have limit: "content_size_limit ?r = 3"
    by (simp add: set_content_size_limit_def)
  have "distinct (map fst ?as) \<and> (''a'', ''hello'') \<in> set ?as"
    by simp
  from t [THEN conjunct2, THEN conjunct2, THEN mp, OF this]
    t [THEN conjunct1] t [THEN conjunct2, THEN conjunct1]
  show ?thesis
    by (simp add: limit)
qed

lemma copy_construct_eq: "copy_construct raw b = b\<lparr>requestor_port := requestor_port raw\<rparr>"
  by (simp add: copy_construct_def)

lemma copy_assign_flags:
  "headers_loaded (copy_assign this b) = headers_loaded this
   \<and> footers_loaded (copy_assign this b) = footers_loaded this
   \<and> cookies_loaded (copy_assign this b) = cookies_loaded this
   \<and> args_loaded (copy_assign this b) = args_loaded this
   \<and> basic_auth_loaded (copy_assign this b) = basic_auth_loaded this
   \<and> digest_auth_loaded (copy_assign this b) = digest_auth_loaded this
   \<and> requestor_loaded (copy_assign this b) = requestor_loaded this"
  by (simp add: copy_assign_def)

lemma copy_assign_eq:
  "copy_assign this b =
     b\<lparr>requestor_port := requestor_port this,
       headers_loaded := headers_loaded this, footers_loaded := footers_loaded this,
       cookies_loaded := cookies_loaded this, args_loaded := args_loaded this,
       basic_auth_loaded := basic_auth_loaded this,
       digest_auth_loaded := digest_auth_loaded this,
       requestor_loaded := requestor_loaded this, unescaper := unescaper this\<rparr>"
  by (simp add: copy_assign_def)

lemma move_assign_eq_copy_assign: "move_assign this b = copy_assign this b"
  by (simp add: move_assign_def copy_assign_def)

lemma move_construct_eq_copy_assign: "move_construct raw b = copy_assign raw b"
  by (simp add: move_construct_def copy_assign_def)

text \<open>
  C1. A copy or move does not carry all the state over: the assignments keep the loaded
  flags, \<open>unescaper\<close> and \<open>requestor_port\<close> of the destination (\<open>copy_assign_eq\<close>), the
  move constructor leaves them as the storage held them, and the copy constructor
  leaves \<open>requestor_port\<close> so (\<open>copy_construct_eq\<close>). Let \<open>b\<close> be a request whose headers
  have been loaded (\<open>headers_loaded\<close> is true, port 8080, unescaper 2). Copy assignment
  and move assignment to a new request take the headers of \<open>b\<close> and leave
  \<open>headers_loaded\<close> false; copy assignment of a new request to \<open>b\<close> empties the headers
  and leaves \<open>headers_loaded\<close> true; the move constructor on zeroed storage gives
  \<open>headers_loaded\<close> false and a null \<open>unescaper\<close>; the copy constructor copies the flag
  and gives port 0.
\<close>

theorem copy_move_drop_loaded_flags:
  "headers loaded_request = [(''Host'', ''x'')]
   \<and> headers_loaded loaded_request = True
   \<and> requestor_port loaded_request = 8080
   \<and> unescaper loaded_request = 2
   \<and> headers (copy_assign (new_http_request zeroed 1 2) loaded_request) = [(''Host'', ''x'')]
   \<and> headers_loaded (copy_assign (new_http_request zeroed 1 2) loaded_request) = False
   \<and> headers_loaded (move_assign (new_http_request zeroed 1 2) loaded_request) = False
   \<and> headers (copy_assign loaded_request (new_http_request zeroed 1 2)) = []
   \<and> headers_loaded (copy_assign loaded_request (new_http_request zeroed 1 2)) = True
   \<and> headers_loaded (move_construct zeroed loaded_request) = False
   \<and> unescaper (move_construct zeroed loaded_request) = 0
   \<and> headers_loaded (copy_construct zeroed loaded_request) = True
   \<and> requestor_port (copy_construct zeroed loaded_request) = 0"
  by (simp add: loaded_request_def set_requestor_port_def set_header_def new_http_request_def
      zeroed_def copy_assign_def move_assign_def move_construct_def copy_construct_def)

text \<open>
  C10, as amended. The bulk setters merge their argument into the map of the instance.
  A key \<open>k\<close> to which no key of the argument is equivalent under the comparator of the
  map (for arguments: that is not a key of the argument) finds the entry it found
  before. The value held for a key of the argument is overwritten: by the value of the
  last entry of the argument with an equivalent key, which is the value the argument has
  for the key itself when no two keys of the argument are equivalent; for \<open>set_args\<close>
  that is the value of the key in the argument, cut to \<open>content_size_limit\<close>.
\<close>

theorem bulk_setters_merge:
  "(header_comparator k \<notin> header_comparator ` fst ` set xs \<longrightarrow>
      map_find header_comparator (headers (set_headers r xs)) k = map_find header_comparator (headers r) k
      \<and> map_find header_comparator (footers (set_footers r xs)) k = map_find header_comparator (footers r) k
      \<and> map_find header_comparator (cookies (set_cookies r xs)) k = map_find header_comparator (cookies r) k)
   \<and> (k \<notin> fst ` set xs \<longrightarrow>
      map_find arg_comparator (args (set_args r xs)) k = map_find arg_comparator (args r) k)
   \<and> (map_find header_comparator (rev xs) k = Some (k', v) \<longrightarrow>
      map_value header_comparator (headers (set_headers r xs)) k = Some v
      \<and> map_value header_comparator (footers (set_footers r xs)) k = Some v
      \<and> map_value header_comparator (cookies (set_cookies r xs)) k = Some v)
   \<and> ((k, v) \<in> set xs \<and> distinct (map fst xs) \<longrightarrow>
      map_value arg_comparator (args (set_args r xs)) k = Some (take (content_size_limit r) v))
   \<and> ((k, v) \<in> set xs \<and> distinct (map (header_comparator \<circ> fst) xs) \<longrightarrow>
      map_value header_comparator (headers (set_headers r xs)) k = Some v
      \<and> map_value header_comparator (footers (set_footers r xs)) k = Some v
      \<and> map_value header_comparator (cookies (set_cookies r xs)) k = Some v)"
proof -
  have other: "canon k \<notin> canon ` fst ` set xs \<Longrightarrow>
      map_find canon (fold (\<lambda>it m. map_assign canon m (fst it) (snd it)) xs m) k = map_find canon m k"
    for canon m
    using fold_assign_other [where f = "\<lambda>v. v"] by simp
  have last: "map_find canon (rev xs) k = Some (k', v) \<Longrightarrow>
      map_value canon (fold (\<lambda>it m. map_assign canon m (fst it) (snd it)) xs m) k = Some v"
    for canon m
    using fold_assign_value [where f = "\<lambda>v. v" and canon = canon and xs = xs and m = m and k = k]
    by simp
  have arg_other: "map_find arg_comparator (args (set_args r xs)) k = map_find arg_comparator (args r) k"
    if "k \<notin> fst ` set xs"
  proof -
    have "arg_comparator k \<notin> arg_comparator ` fst ` set xs"
      using that by (simp add: arg_comparator_def [abs_def])
    then show ?thesis
      by (simp add: set_args_def fold_assign_other)
  qed
  have arg_in: "map_value arg_comparator (args (set_args r xs)) k = Some (take (content_size_limit r) v)"
    if "(k, v) \<in> set xs" "distinct (map fst xs)"
  proof -
    have "distinct (map (arg_comparator \<circ> fst) xs)"
      using that(2) by (simp add: arg_comparator_def comp_def)
    then have "map_find arg_comparator (rev xs) k = Some (k, v)"
      using that(1) by (rule find_rev_distinct)
    then show ?thesis
      by (simp add: set_args_def fold_assign_value)
  qed
  have header_in: "map_value header_comparator
        (fold (\<lambda>it m. map_assign header_comparator m (fst it) (snd it)) xs m) k = Some v"
    if "(k, v) \<in> set xs" "distinct (map (header_comparator \<circ> fst) xs)" for m
  proof -
    have "map_find header_comparator (rev xs) k = Some (k, v)"
      using that(2) that(1) by (rule find_rev_distinct)
    then show ?thesis
      using fold_assign_value [where f = "\<lambda>v. v" and canon = header_comparator and xs = xs
          and m = m and k = k]
      by simp
  qed
  show ?thesis
    using other last arg_other arg_in header_in
    by (simp add: set_headers_def set_footers_def set_cookies_def)
qed

lemma header_comparator_examples:
  "header_comparator ''Foo'' = ''FOO''" "header_comparator ''foo'' = ''FOO''"
  "header_comparator ''FOO'' = ''FOO''" "header_comparator ''Bar'' = ''BAR''"
  "header_comparator ''Host'' = ''HOST''" "header_comparator ''host'' = ''HOST''"
  by code_simp+

theorem bulk_setters_merge_witness:
  "map_find header_comparator
     (headers (set_headers (set_header (set_header (new_http_request zeroed 7 0) ''Foo'' ''a'')
        ''Bar'' ''c'') [(''foo'', ''b'')])) ''Bar'' = Some (''Bar'', ''c'')
   \<and> map_value header_comparator
     (headers (set_headers (set_header (set_header (new_http_request zeroed 7 0) ''Foo'' ''a'')
        ''Bar'' ''c'') [(''foo'', ''b'')])) ''FOO'' = Some ''b''
   \<and> map_find arg_comparator
     (args (set_args (set_arg (new_http_request zeroed 7 0) ''Bar'' ''c'') [(''foo'', ''b'')])) ''Bar''
       = Some (''Bar'', ''c'')
   \<and> map_value arg_comparator
     (args (set_args (set_arg (new_http_request zeroed 7 0) ''Bar'' ''c'') [(''foo'', ''b'')])) ''foo''
       = Some ''b''"
proof -
  let ?r = "set_header (set_header (new_http_request zeroed 7 0) ''Foo'' ''a'') ''Bar'' ''c''"
  let ?q = "set_arg (new_http_request zeroed 7 0) ''Bar'' ''c''"
  let ?xs = "[(''foo'', ''b'')]"
  have hr: "headers ?r = [(''Foo'', ''a''), (''Bar'', ''c'')]"
    by (simp add: set_header_def new_http_request_def header_comparator_examples)
  have aq: "args ?q = [(''Bar'', ''c'')]" "content_size_limit ?q = SIZE_MAX"
    by (simp_all add: set_arg_def new_http_request_def SIZE_MAX_def)
  have 1: "header_comparator ''Bar'' \<notin> header_comparator ` fst ` set ?xs"
    by (simp add: header_comparator_examples)
  have 2: "''Bar'' \<notin> fst ` set ?xs"
    by simp
  have 3: "map_find header_comparator (rev ?xs) ''FOO'' = Some (''foo'', ''b'')"
    by (simp add: header_comparator_examples)
  have 4: "(''foo'', ''b'') \<in> set ?xs \<and> distinct (map fst ?xs)"
    by simp
  note h = bulk_setters_merge [of "''Bar''" ?xs ?r]
  note a = bulk_setters_merge [of "''Bar''" ?xs ?q]
  note v = bulk_setters_merge [of "''FOO''" ?xs ?r "''foo''" "''b''"]
  note w = bulk_setters_merge [of "''foo''" ?xs ?q _ "''b''"]
  from h [THEN conjunct1, THEN mp, OF 1, THEN conjunct1]
    v [THEN conjunct2, THEN conjunct2, THEN conjunct1, THEN mp, OF 3, THEN conjunct1]
    a [THEN conjunct2, THEN conjunct1, THEN mp, OF 2]
    w [THEN conjunct2, THEN conjunct2, THEN conjunct2, THEN conjunct1, THEN mp, OF 4]
  show ?thesis
    by (simp add: hr aq header_comparator_examples arg_comparator_def SIZE_MAX_def)
qed

text \<open>
  C10, as stated, fails where two spellings of a header name meet: the instance holds
  \<open>Foo: a\<close>, the argument holds \<open>foo: b\<close> only, so the key \<open>Foo\<close> is in the map of the
  instance and absent from the argument, and after \<open>set_headers\<close> its entry holds \<open>b\<close>.
\<close>

theorem set_headers_changes_absent_key:
  "map_find header_comparator (headers (set_header (new_http_request zeroed 7 0) ''Foo'' ''a'')) ''Foo''
     = Some (''Foo'', ''a'')
   \<and> ''Foo'' \<notin> fst ` set [(''foo'', ''b'')]
   \<and> map_find header_comparator
        (headers (set_headers (set_header (new_http_request zeroed 7 0) ''Foo'' ''a'') [(''foo'', ''b'')]))
        ''Foo''
     = Some (''Foo'', ''b'')"
  by (simp add: set_headers_def set_header_def new_http_request_def zeroed_def
      header_comparator_examples)

subsection \<open>Lazy maps\<close>

lemma fold_preserves: "(\<And>it r. g (f it r) = g r) \<Longrightarrow> g (fold f xs r) = g r"
  by (induction xs arbitrary: r) simp_all

lemma loaded_check_or_fill_headers:
  "loaded k (request (check_or_fill_headers tr s)) = (loaded k (request s) \<or> k = HEADER_KIND)"
proof (cases "headers_loaded (request s)")
  case True
  then show ?thesis
    by (cases k) (auto simp: check_or_fill_headers_def)
next
  case False
  then show ?thesis
    by (cases k)
      (simp_all add: check_or_fill_headers_def Let_def build_request_header_def set_header_def
        fold_preserves [where g = footers_loaded] fold_preserves [where g = cookies_loaded]
        fold_preserves [where g = args_loaded])
qed

lemma loaded_check_or_fill_footers:
  "loaded k (request (check_or_fill_footers tr s)) = (loaded k (request s) \<or> k = FOOTER_KIND)"
proof (cases "footers_loaded (request s)")
  case True
  then show ?thesis
    by (cases k) (auto simp: check_or_fill_footers_def)
next
  case False
  then show ?thesis
    by (cases k)
      (simp_all add: check_or_fill_footers_def Let_def build_request_footer_def set_footer_def
        fold_preserves [where g = headers_loaded] fold_preserves [where g = cookies_loaded]
        fold_preserves [where g = args_loaded])
qed

lemma loaded_check_or_fill_cookies:
  "loaded k (request (check_or_fill_cookies tr s)) = (loaded k (request s) \<or> k = COOKIE_KIND)"
proof (cases "cookies_loaded (request s)")
  case True
  then show ?thesis
    by (cases k) (auto simp: check_or_fill_cookies_def)
next
  case False
  then show ?thesis
    by (cases k)
      (simp_all add: check_or_fill_cookies_def Let_def build_request_cookie_def set_cookie_def
        fold_preserves [where g = headers_loaded] fold_preserves [where g = footers_loaded]
        fold_preserves [where g = args_loaded])
qed

lemma loaded_check_or_fill_args:
  "loaded k (request (check_or_fill_args tr s)) = (loaded k (request s) \<or> k = ARGUMENT_KIND)"
proof (cases "args_loaded (request s)")
  case True
  then show ?thesis
    by (cases k) (auto simp: check_or_fill_args_def)
next
  case False
  then show ?thesis
    by (cases k)
      (simp_all add: check_or_fill_args_def Let_def build_request_args_def set_arg_def
        fold_preserves [where g = headers_loaded] fold_preserves [where g = footers_loaded]
        fold_preserves [where g = cookies_loaded])
qed

lemma enumerations_check_or_fill:
  "enumerations (check_or_fill_headers tr s)
     = (if headers_loaded (request s) then enumerations s else enumerations s @ [HEADER_KIND])"
  "enumerations (check_or_fill_footers tr s)
     = (if footers_loaded (request s) then enumerations s else enumerations s @ [FOOTER_KIND])"
  "enumerations (check_or_fill_cookies tr s)
     = (if cookies_loaded (request s) then enumerations s else enumerations s @ [COOKIE_KIND])"
  "enumerations (check_or_fill_args tr s)
     = (if args_loaded (request s) then enumerations s else enumerations s @ [ARGUMENT_KIND])"
  by (simp_all add: check_or_fill_headers_def check_or_fill_footers_def
      check_or_fill_cookies_def check_or_fill_args_def Let_def)

lemma check_or_fill_twice:
  "check_or_fill_headers tr (check_or_fill_headers tr s) = check_or_fill_headers tr s"
  "check_or_fill_footers tr (check_or_fill_footers tr s) = check_or_fill_footers tr s"
  "check_or_fill_cookies tr (check_or_fill_cookies tr s) = check_or_fill_cookies tr s"
  "check_or_fill_args tr (check_or_fill_args tr s) = check_or_fill_args tr s"
proof -
  show "check_or_fill_headers tr (check_or_fill_headers tr s) = check_or_fill_headers tr s"
    using loaded_check_or_fill_headers [of HEADER_KIND tr s]
    by (subst check_or_fill_headers_def) simp
  show "check_or_fill_footers tr (check_or_fill_footers tr s) = check_or_fill_footers tr s"
    using loaded_check_or_fill_footers [of FOOTER_KIND tr s]
    by (subst check_or_fill_footers_def) simp
  show "check_or_fill_cookies tr (check_or_fill_cookies tr s) = check_or_fill_cookies tr s"
    using loaded_check_or_fill_cookies [of COOKIE_KIND tr s]
    by (subst check_or_fill_cookies_def) simp
  show "check_or_fill_args tr (check_or_fill_args tr s) = check_or_fill_args tr s"
    using loaded_check_or_fill_args [of ARGUMENT_KIND tr s]
    by (subst check_or_fill_args_def) simp
qed

lemmas getter_defs =
  get_headers_def get_footers_def get_cookies_def get_args_def
  get_header_def get_footer_def get_cookie_def get_arg_def

lemma call_twice: "call tr g (snd (call tr g s)) = call tr g s"
  by (cases g) (simp_all add: getter_defs Let_def check_or_fill_twice)

lemma loaded_call:
  "loaded k (request (snd (call tr g s))) = (loaded k (request s) \<or> k = kind_of g)"
  by (cases g)
    (simp_all add: getter_defs Let_def loaded_check_or_fill_headers
      loaded_check_or_fill_footers loaded_check_or_fill_cookies loaded_check_or_fill_args)

lemma enumerations_call:
  "enumerations (snd (call tr g s))
     = (if loaded (kind_of g) (request s) then enumerations s else enumerations s @ [kind_of g])"
  by (cases g) (simp_all add: getter_defs Let_def enumerations_check_or_fill)

lemma run_once:
  assumes "\<And>k. count_list (enumerations s) k = (if loaded k (request s) then 1 else 0)"
  shows "count_list (enumerations (run tr gs s)) k
           = (if loaded k (request s) \<or> k \<in> kind_of ` set gs then 1 else 0)
         \<and> loaded k (request (run tr gs s)) = (loaded k (request s) \<or> k \<in> kind_of ` set gs)"
  using assms
proof (induction gs arbitrary: s)
  case Nil
  then show ?case by simp
next
  case (Cons g gs)
  have "count_list (enumerations (snd (call tr g s))) k'
          = (if loaded k' (request (snd (call tr g s))) then 1 else 0)" for k'
    using Cons.prems [of k'] Cons.prems [of "kind_of g"]
    by (auto simp: enumerations_call loaded_call)
  from Cons.IH [OF this] show ?case
    by (auto simp: loaded_call)
qed

lemma new_session_fresh:
  "count_list (enumerations (new_session raw conn unesc)) k
     = (if loaded k (request (new_session raw conn unesc)) then 1 else 0)"
  by (cases k) (simp_all add: new_session_def new_http_request_def)

text \<open>
  C4. A lazy getter called a second time gives the result of the first call and leaves
  the session, with its log of enumerations, as the first call left it. A call sets the
  loaded flag of its kind and changes no other flag, so a flag that is true stays true;
  it asks the Transport for an enumeration only when the flag of its kind is false.
  After any run of getter calls on a new request, each kind has been enumerated once
  if the run has a getter of the kind and never otherwise, and its flag says which.
\<close>

theorem lazy_getters_load_once:
  "call tr g (snd (call tr g s)) = call tr g s
   \<and> loaded k (request (snd (call tr g s))) = (loaded k (request s) \<or> k = kind_of g)
   \<and> enumerations (snd (call tr g s))
       = (if loaded (kind_of g) (request s) then enumerations s
          else enumerations s @ [kind_of g])
   \<and> count_list (enumerations (run tr gs (new_session raw conn unesc))) k
       = (if k \<in> kind_of ` set gs then 1 else 0)
   \<and> loaded k (request (run tr gs (new_session raw conn unesc))) = (k \<in> kind_of ` set gs)"
proof -
  have "\<not> loaded k (request (new_session raw conn unesc))"
    by (cases k) (simp_all add: new_session_def new_http_request_def)
  then show ?thesis
    using run_once [where s = "new_session raw conn unesc" and k = k and tr = tr and gs = gs,
        OF new_session_fresh]
    by (simp add: call_twice loaded_call enumerations_call)
qed

theorem lazy_getters_load_once_witness:
  "fst (call (stub_transport [(''Host'', ''x'')]) (Get_header ''host'') (new_session zeroed 7 0))
     = Str ''x''
   \<and> call (stub_transport [(''Host'', ''x'')]) (Get_header ''host'')
       (snd (call (stub_transport [(''Host'', ''x'')]) (Get_header ''host'') (new_session zeroed 7 0)))
     = call (stub_transport [(''Host'', ''x'')]) (Get_header ''host'') (new_session zeroed 7 0)
   \<and> count_list (enumerations (run (stub_transport [(''Host'', ''x'')])
        [Get_header ''host'', Get_headers, Get_header ''Host''] (new_session zeroed 7 0))) HEADER_KIND
     = 1
   \<and> count_list (enumerations (run (stub_transport [(''Host'', ''x'')])
        [Get_header ''host'', Get_headers, Get_header ''Host''] (new_session zeroed 7 0))) COOKIE_KIND
     = 0"
proof -
  let ?tr = "stub_transport [(''Host'', ''x'')]"
  let ?s = "new_session zeroed 7 0"
  let ?gs = "[Get_header ''host'', Get_headers, Get_header ''Host'']"
  have "fst (call ?tr (Get_header ''host'') ?s) = Str ''x''"
    by (simp add: get_header_def Let_def check_or_fill_headers_def stub_transport_def
        new_session_def new_http_request_def build_request_header_def set_header_def
        header_comparator_examples)
  moreover note lazy_getters_load_once [of ?tr "Get_header ''host''" ?s HEADER_KIND ?gs zeroed 7 0]
    lazy_getters_load_once [of ?tr "Get_header ''host''" ?s COOKIE_KIND ?gs zeroed 7 0]
  ultimately show ?thesis
    by simp
qed

subsection \<open>Digest authentication\<close>














end
